theory Spec2Isabelle
  imports Complex_Main "HOL-Library.AList" "HOL-Library.Char_ord" "HOL-Library.List_Lexorder"
begin

section \<open>Values read from and written to the order file\<close>

text \<open>
  The order file holds JSON. Its entries are compared with layer names (Python \<open>str\<close>)
  only, and a JSON value that is not a string never equals a \<open>str\<close>, so the numeric
  payload of \<open>JNum\<close> plays no role in any comparison made by the program.
\<close>

datatype json =
    JNull
  | JBool bool
  | JNum int
  | JStr string
  | JArr "json list"
  | JObj "(string \<times> json) list"

text \<open>\<open>isinstance(n, str)\<close> and \<open>isinstance(data, list)\<close>.\<close>

fun is_str :: "json \<Rightarrow> bool" where
  "is_str (JStr s) = True"
| "is_str _ = False"

fun is_list :: "json \<Rightarrow> bool" where
  "is_list (JArr xs) = True"
| "is_list _ = False"

text \<open>\<open>n in present\<close> for a JSON value \<open>n\<close> and a list of \<open>str\<close>: Python compares with
  \<open>==\<close>, which holds only for a string with the same characters.\<close>

definition py_in :: "json \<Rightarrow> string list \<Rightarrow> bool" where
  "py_in n present = (n \<in> set (map JStr present))"

section \<open>The order store\<close>

text \<open>
  What \<open>ORDER_FILE\<close> is on disk: not there, there but not readable (\<open>open\<close> raises),
  or readable with a text that \<open>json.load\<close> either rejects (\<open>None\<close>) or parses.
\<close>

datatype order_file = Absent | Unreadable | Content "json option"

definition DEFAULT_LAYER_ORDER :: "json list" where
  "DEFAULT_LAYER_ORDER = [JStr ''P_Location'', JStr ''Taluka'']"

text \<open>The exceptions the handlers can meet.\<close>

datatype py_error = OSError | JSONDecodeError | KeyError | AttributeError

text \<open>The body of the \<open>try\<close> in \<open>load_saved_order\<close>: \<open>Inl\<close> is a raised exception,
  \<open>Inr None\<close> is falling out of the \<open>if\<close>s without a \<open>return\<close>.\<close>

definition try_load :: "order_file \<Rightarrow> py_error + json list option" where
  "try_load f =
     (case f of
        Absent \<Rightarrow> Inr None
      | Unreadable \<Rightarrow> Inl OSError
      | Content None \<Rightarrow> Inl JSONDecodeError
      | Content (Some data) \<Rightarrow>
          (case data of JArr xs \<Rightarrow> Inr (Some xs) | _ \<Rightarrow> Inr None))"

definition load_saved_order :: "order_file \<Rightarrow> json list" where
  "load_saved_order f =
     (case try_load f of
        Inr (Some xs) \<Rightarrow> xs
      | Inr None \<Rightarrow> DEFAULT_LAYER_ORDER
      | Inl e \<Rightarrow> DEFAULT_LAYER_ORDER)"

section \<open>Reconciling the saved order with the registry (the listing path)\<close>

text \<open>The first loop of \<open>get_layers\<close>: \<open>ordered\<close> is the accumulator.\<close>

fun keep_saved :: "json list \<Rightarrow> string list \<Rightarrow> string list \<Rightarrow> string list" where
  "keep_saved [] present ordered = ordered"
| "keep_saved (n # ns) present ordered =
     (case n of
        JStr s \<Rightarrow>
          (if s \<in> set present \<and> s \<notin> set ordered
           then keep_saved ns present (ordered @ [s])
           else keep_saved ns present ordered)
      | _ \<Rightarrow> keep_saved ns present ordered)"

text \<open>The second loop, run over \<open>sorted(present)\<close>.\<close>

fun append_missing :: "string list \<Rightarrow> string list \<Rightarrow> string list" where
  "append_missing [] ordered = ordered"
| "append_missing (n # ns) ordered =
     (if n \<notin> set ordered then append_missing ns (ordered @ [n])
      else append_missing ns ordered)"

definition reconcile :: "json list \<Rightarrow> string list \<Rightarrow> string list" where
  "reconcile saved_order present =
     append_missing (sort present) (keep_saved saved_order present [])"

section \<open>Strings and paths\<close>

text \<open>\<open>str.lower\<close> on the ASCII letters, which is all that the test for the
  \<open>.zip\<close> suffix can see.\<close>

definition lower_char :: "char \<Rightarrow> char" where
  "lower_char c =
     (let n = (of_char c :: nat) in if 65 \<le> n \<and> n \<le> 90 then char_of (n + 32) else c)"

definition lower :: "string \<Rightarrow> string" where
  "lower s = map lower_char s"

definition endswith :: "string \<Rightarrow> string \<Rightarrow> bool" where
  "endswith s suf = (length suf \<le> length s \<and> drop (length s - length suf) s = suf)"

text \<open>\<open>os.path.join\<close> of two components, \<open>os.path.basename\<close> and the root part of
  \<open>os.path.splitext\<close>, on POSIX paths. \<open>splitext\<close> splits at the last dot of the last
  component unless only dots precede it there.\<close>

definition path_join :: "string \<Rightarrow> string \<Rightarrow> string" where
  "path_join a b =
     (if take 1 b = ''/'' then b
      else if a = [] \<or> endswith a ''/'' then a @ b
      else a @ ''/'' @ b)"

definition basename :: "string \<Rightarrow> string" where
  "basename p = rev (takeWhile (\<lambda>c. c \<noteq> CHR ''/'') (rev p))"

definition splitext_root :: "string \<Rightarrow> string" where
  "splitext_root p =
     (let b = basename p;
          d = take (length p - length b) p;
          ext = takeWhile (\<lambda>c. c \<noteq> CHR ''.'') (rev b);
          pre = take (length b - length ext - 1) b
      in if CHR ''.'' \<in> set b \<and> filter (\<lambda>c. c \<noteq> CHR ''.'') pre \<noteq> [] then d @ pre else p)"

text \<open>\<open>"#{:06x}".format(n)\<close> for \<open>n\<close> below \<open>0x1000000\<close>.\<close>

definition hex_digit :: "nat \<Rightarrow> char" where
  "hex_digit d = ''0123456789abcdef'' ! (d mod 16)"

definition hex6 :: "nat \<Rightarrow> string" where
  "hex6 n = CHR ''#'' # map (\<lambda>i. hex_digit (n div 16 ^ i)) [5, 4, 3, 2, 1, 0]"

definition UPLOAD_FOLDER :: string where
  "UPLOAD_FOLDER = ''uploads''"

section \<open>Layers, the registry and the state of the process\<close>

text \<open>
  A layer record as \<open>load_zip_into_layers\<close> builds it. The type \<open>'g\<close> stands for the
  GeoJSON dictionary that geopandas produces; the program never looks inside it except
  to hand it back to geopandas.
\<close>

record 'g layer =
  geojson :: 'g
  color :: string
  opacity :: real
  zip_path :: string

text \<open>
  The global \<open>layers\<close> is a Python dictionary, which iterates in insertion order:
  an association list, written with \<open>AList.update\<close> (a new key goes to the end, a known
  key keeps its place) and \<open>AList.delete\<close>.

  \<open>disk\<close> maps the path of each stored archive to its content.
  \<open>unsavable\<close> holds the paths at which \<open>file.save\<close> raises, for instance a path
  whose directory does not exist. \<open>locked\<close> holds the paths that \<open>os.remove\<close> refuses.
  \<open>order_write\<close> says how writing \<open>ORDER_FILE\<close> goes.
  \<open>randoms\<close> and \<open>drawn\<close> stand for the random number generator: the next
  \<open>random.randint\<close> yields \<open>randoms drawn\<close>.
\<close>

text \<open>
  An uploaded archive is either no zip file at all (\<open>ZipFile\<close> or \<open>extractall\<close> raises)
  or a tree of files: the directories of the extracted tree in the order \<open>os.walk\<close>
  yields them, each with its path and its files. A file carries its name and what
  \<open>gpd.read_file\<close> followed by \<open>to_crs\<close> makes of it: \<open>None\<close> when either raises.
\<close>

datatype 'g archive =
    NotZip
  | Zip "(string \<times> (string \<times> 'g option) list) list"

text \<open>
  Writing \<open>ORDER_FILE\<close>: all goes well; or \<open>open(ORDER_FILE, "wt")\<close> raises and the file
  stays as it is; or the file is opened, which truncates it, and the write raises.
\<close>

datatype write_outcome = WriteOk | OpenFails | WriteFails

record 'g state =
  layers :: "(string \<times> 'g layer) list"
  order_file :: order_file
  order_write :: write_outcome
  disk :: "(string \<times> 'g archive) list"
  unsavable :: "string set"
  locked :: "string set"
  randoms :: "nat \<Rightarrow> nat"
  drawn :: nat

text \<open>
  The file after \<open>open(ORDER_FILE, "wt")\<close> succeeded and the text \<open>t\<close> was left in it.
  A file that cannot be opened for reading stays so, whatever is written into it.
\<close>

definition written :: "json option \<Rightarrow> order_file \<Rightarrow> order_file" where
  "written t f = (case f of Unreadable \<Rightarrow> Unreadable | _ \<Rightarrow> Content t)"

text \<open>A write that raises after the file was truncated leaves a text that is no JSON.\<close>

definition save_order :: "json list \<Rightarrow> 'g state \<Rightarrow> bool \<times> 'g state" where
  "save_order order_list st =
     (case order_write st of
        WriteOk \<Rightarrow> (True, st\<lparr>order_file := written (Some (JArr order_list)) (order_file st)\<rparr>)
      | OpenFails \<Rightarrow> (False, st)
      | WriteFails \<Rightarrow> (False, st\<lparr>order_file := written None (order_file st)\<rparr>))"

text \<open>The search for the shapefile in \<open>load_zip_into_layers\<close>: the inner loop stops at
  the first \<open>.shp\<close> of a directory, the outer loop goes on, so the last directory that
  has one decides.\<close>

fun first_shp :: "(string \<times> 'g option) list \<Rightarrow> (string \<times> 'g option) option" where
  "first_shp [] = None"
| "first_shp (f # fs) =
     (if endswith (lower (fst f)) ''.shp'' then Some f else first_shp fs)"

fun find_shp ::
  "(string \<times> (string \<times> 'g option) list) list \<Rightarrow> (string \<times> 'g option) option
     \<Rightarrow> (string \<times> 'g option) option" where
  "find_shp [] shp_file = shp_file"
| "find_shp (d # ds) shp_file =
     (case first_shp (snd d) of
        Some f \<Rightarrow> find_shp ds (Some (path_join (fst d) (fst f), snd f))
      | None \<Rightarrow> find_shp ds shp_file)"

text \<open>The body of the \<open>try\<close> up to the GeoJSON dictionary: \<open>None\<close> stands for
  \<open>return False\<close>, whether no shapefile was found or an exception was caught.\<close>

definition read_archive :: "'g archive \<Rightarrow> 'g option" where
  "read_archive a =
     (case a of
        NotZip \<Rightarrow> None
      | Zip tree \<Rightarrow> (case find_shp tree None of None \<Rightarrow> None | Some shp_file \<Rightarrow> snd shp_file))"

definition load_zip_into_layers :: "string \<Rightarrow> 'g state \<Rightarrow> bool \<times> 'g state" where
  "load_zip_into_layers zp st =
     (case Option.bind (map_of (disk st) zp) read_archive of
        None \<Rightarrow> (False, st)
      | Some geojson_dict \<Rightarrow>
          (let layer_name = splitext_root (basename zp);
               c = hex6 (randoms st (drawn st) mod 16777216);
               lyr = \<lparr>geojson = geojson_dict, color = c, opacity = 7 / 10, zip_path = zp\<rparr>
           in (True, st\<lparr>layers := AList.update layer_name lyr (layers st),
                          drawn := Suc (drawn st)\<rparr>)))"

section \<open>Upload\<close>

record 'g upload =
  filename :: string
  content :: "'g archive"

text \<open>The loop \<open>for name in ...: if name not in order: order.append(name)\<close>, which
  closes the upload handler, the reorder handler and the start of the process.\<close>

fun append_absent :: "string list \<Rightarrow> json list \<Rightarrow> json list" where
  "append_absent [] order = order"
| "append_absent (name # names) order =
     (if JStr name \<notin> set order then append_absent names (order @ [JStr name])
      else append_absent names order)"

text \<open>
  The loop over the files of the request. \<open>file.save\<close> stands outside every \<open>try\<close>:
  where it raises, the exception leaves the handler, with the layers loaded so far in the
  registry and nothing written to the order file.
\<close>

fun upload_loop ::
  "'g upload list \<Rightarrow> string list \<Rightarrow> string list \<Rightarrow> 'g state
     \<Rightarrow> (py_error + string list \<times> string list) \<times> 'g state" where
  "upload_loop [] uploaded failed st = (Inr (uploaded, failed), st)"
| "upload_loop (file # files) uploaded failed st =
     (if \<not> endswith (lower (filename file)) ''.zip''
      then upload_loop files uploaded (failed @ [filename file]) st
      else
        (let zp = path_join UPLOAD_FOLDER (filename file)
         in if zp \<in> unsavable st then (Inl OSError, st)
            else
              (let st1 = st\<lparr>disk := AList.update zp (content file) (disk st)\<rparr>;
                   (ok, st2) = load_zip_into_layers zp st1
               in if ok
                  then upload_loop files (uploaded @ [splitext_root (filename file)]) failed st2
                  else upload_loop files uploaded (failed @ [filename file]) st2)))"

datatype upload_response =
    UploadForbidden
  | NoFiles
  | UploadResult (uploaded: "string list") (failed: "string list")

definition upload_shapefiles ::
  "bool \<Rightarrow> 'g upload list option \<Rightarrow> 'g state
     \<Rightarrow> (py_error + upload_response) \<times> 'g state" where
  "upload_shapefiles admin request_files st =
     (if \<not> admin then (Inr UploadForbidden, st)
      else case request_files of
        None \<Rightarrow> (Inr NoFiles, st)
      | Some files \<Rightarrow>
          (case upload_loop files [] [] st of
             (Inl e, st1) \<Rightarrow> (Inl e, st1)
           | (Inr (up, fl), st1) \<Rightarrow>
               (let order = append_absent (map fst (layers st1))
                              (load_saved_order (order_file st1));
                    (ok, st2) = save_order order st1
                in (Inr (UploadResult up fl), st2))))"

section \<open>Delete\<close>

datatype delete_response = DeleteForbidden | Deleted | NotFound

definition remove_archive :: "string \<Rightarrow> 'g state \<Rightarrow> 'g state" where
  "remove_archive zp st =
     (if zp \<noteq> [] \<and> zp \<in> fst ` set (disk st)
      then (if zp \<in> locked st then st else st\<lparr>disk := AList.delete zp (disk st)\<rparr>)
      else st)"

definition delete_layer :: "bool \<Rightarrow> string \<Rightarrow> 'g state \<Rightarrow> delete_response \<times> 'g state" where
  "delete_layer admin layer_name st =
     (if \<not> admin then (DeleteForbidden, st)
      else case map_of (layers st) layer_name of
        None \<Rightarrow> (NotFound, st)
      | Some lyr \<Rightarrow>
          (let st1 = remove_archive (zip_path lyr) st;
               st2 = st1\<lparr>layers := AList.delete layer_name (layers st1)\<rparr>;
               order = load_saved_order (order_file st2)
           in if JStr layer_name \<in> set order
              then (Deleted, snd (save_order (filter (\<lambda>n. n \<noteq> JStr layer_name) order) st2))
              else (Deleted, st2)))"

section \<open>Listing\<close>

text \<open>The dictionary comprehension \<open>{name: layers[name] for name in ordered}\<close>;
  \<open>layers[name]\<close> raises \<open>KeyError\<close> for a name that is not a key.\<close>

fun build_layers ::
  "(string \<times> 'v) list \<Rightarrow> string list \<Rightarrow> (string \<times> 'v) list \<Rightarrow> py_error + (string \<times> 'v) list" where
  "build_layers reg [] acc = Inr acc"
| "build_layers reg (name # names) acc =
     (case map_of reg name of
        None \<Rightarrow> Inl KeyError
      | Some lyr \<Rightarrow> build_layers reg names (AList.update name lyr acc))"

text \<open>
  \<open>total_bounds\<close> of a \<open>GeoDataFrame\<close> is the array \<open>[minx, miny, maxx, maxy]\<close> of
  floats. The handler only compares them, so a float is either NaN or a number of some
  linear order; \<open>a < b\<close> is false as soon as one side is NaN.
\<close>

datatype 'c coord = NaN | Num 'c

fun py_less :: "'c::linorder coord \<Rightarrow> 'c coord \<Rightarrow> bool" where
  "py_less (Num a) (Num b) = (a < b)"
| "py_less _ _ = False"

record 'c box =
  minx :: 'c
  miny :: 'c
  maxx :: 'c
  maxy :: 'c

text \<open>
  The bounds loop. The parameter \<open>tb\<close> is
  \<open>GeoDataFrame.from_features(lyr["geojson"]["features"], crs="EPSG:4326").total_bounds\<close>,
  a geopandas computation: \<open>None\<close> when it raises, which the loop catches and passes over.
  For a layer without any geometry geopandas does not raise: it returns four NaN.
\<close>

fun collect_bounds ::
  "('g \<Rightarrow> 'c coord box option) \<Rightarrow> 'g layer list \<Rightarrow> 'c coord box list \<Rightarrow> 'c coord box list" where
  "collect_bounds tb [] all_bounds = all_bounds"
| "collect_bounds tb (lyr # lyrs) all_bounds =
     (case tb (geojson lyr) of
        Some b \<Rightarrow> collect_bounds tb lyrs (all_bounds @ [b])
      | None \<Rightarrow> collect_bounds tb lyrs all_bounds)"

text \<open>Python's \<open>min\<close> and \<open>max\<close> over a sequence with first element \<open>x\<close>: the running
  best is replaced only by a strictly better item.\<close>

definition py_min :: "'c::linorder coord \<Rightarrow> 'c coord list \<Rightarrow> 'c coord" where
  "py_min x xs = fold (\<lambda>y best. if py_less y best then y else best) xs x"

definition py_max :: "'c::linorder coord \<Rightarrow> 'c coord list \<Rightarrow> 'c coord" where
  "py_max x xs = fold (\<lambda>y best. if py_less best y then y else best) xs x"

definition aggregate_bounds ::
  "('g \<Rightarrow> 'c::linorder coord box option) \<Rightarrow> (string \<times> 'g layer) list
     \<Rightarrow> (('c coord \<times> 'c coord) \<times> ('c coord \<times> 'c coord)) option" where
  "aggregate_bounds tb ols =
     (if ols = [] then None
      else case collect_bounds tb (map snd ols) [] of
        [] \<Rightarrow> None
      | b # bs \<Rightarrow>
          (let x0 = py_min (minx b) (map minx bs);
               y0 = py_min (miny b) (map miny bs);
               x1 = py_max (maxx b) (map maxx bs);
               y1 = py_max (maxy b) (map maxy bs)
           in Some ((y0, x0), (y1, x1))))"

text \<open>
  The values given to \<open>jsonify\<close>, under the names the handler has for them (the keys of
  the response are \<open>is_admin\<close>, \<open>layers\<close>, \<open>order\<close> and \<open>bounds\<close>).
\<close>

record ('g, 'c) list_response =
  is_admin :: bool
  ordered_layers :: "(string \<times> 'g layer) list"
  ordered :: "string list"
  final_bounds :: "(('c coord \<times> 'c coord) \<times> ('c coord \<times> 'c coord)) option"

text \<open>
  \<open>jsonify\<close> writes the response with Flask's JSON provider, which sorts the keys of
  every dictionary unless the application turns that off; this one does not. Lists keep
  their order. So the layers mapping of the response is enumerated by sorted key.
\<close>

definition jsonify :: "('g, 'c) list_response \<Rightarrow> ('g, 'c) list_response" where
  "jsonify r = r\<lparr>ordered_layers := sort_key fst (ordered_layers r)\<rparr>"

definition get_layers ::
  "bool \<Rightarrow> ('g \<Rightarrow> 'c::linorder coord box option) \<Rightarrow> 'g state
     \<Rightarrow> py_error + ('g, 'c) list_response" where
  "get_layers admin tb st =
     (let saved_order = load_saved_order (order_file st);
          present = map fst (layers st);
          ord = reconcile saved_order present
      in case build_layers (layers st) ord [] of
           Inl e \<Rightarrow> Inl e
         | Inr ols \<Rightarrow>
             Inr (jsonify \<lparr>is_admin = admin, ordered_layers = ols, ordered = ord,
                           final_bounds = aggregate_bounds tb ols\<rparr>))"

section \<open>Reorder\<close>

text \<open>Python's truth value of a JSON value, for \<open>request.get_json() or {}\<close>.\<close>

fun truthy :: "json \<Rightarrow> bool" where
  "truthy JNull = False"
| "truthy (JBool b) = b"
| "truthy (JNum n) = (n \<noteq> 0)"
| "truthy (JStr s) = (s \<noteq> [])"
| "truthy (JArr xs) = (xs \<noteq> [])"
| "truthy (JObj kvs) = (kvs \<noteq> [])"

text \<open>\<open>data.get("order", [])\<close>: only a dictionary has \<open>get\<close>.\<close>

fun get_order :: "json \<Rightarrow> py_error + json" where
  "get_order (JObj kvs) = (case map_of kvs ''order'' of None \<Rightarrow> Inr (JArr []) | Some v \<Rightarrow> Inr v)"
| "get_order _ = Inl AttributeError"

text \<open>Lines 236 to 241 of the handler: the filter and the loop over the registry's names.\<close>

definition cleaned_order :: "json list \<Rightarrow> string list \<Rightarrow> json list" where
  "cleaned_order new_order present =
     append_absent present (filter (\<lambda>n. is_str n \<and> py_in n present) new_order)"

datatype set_order_response =
    OrderForbidden
  | NotAList
  | OrderSaved "json list"
  | SaveFailed

definition set_order ::
  "bool \<Rightarrow> json \<Rightarrow> 'g state \<Rightarrow> (py_error + set_order_response) \<times> 'g state" where
  "set_order admin body st =
     (if \<not> admin then (Inr OrderForbidden, st)
      else case get_order (if truthy body then body else JObj []) of
        Inl e \<Rightarrow> (Inl e, st)
      | Inr new_order \<Rightarrow>
          (case new_order of
             JArr xs \<Rightarrow>
               (let cleaned = cleaned_order xs (map fst (layers st));
                    (ok, st1) = save_order cleaned st
                in if ok then (Inr (OrderSaved cleaned), st1) else (Inr SaveFailed, st1))
           | _ \<Rightarrow> (Inr NotAList, st)))"

section \<open>Notions used to state the properties\<close>

text \<open>The strings among the entries of a JSON list, in their order.\<close>

definition strs :: "json list \<Rightarrow> string list" where
  "strs ns = concat (map (\<lambda>n. case n of JStr s \<Rightarrow> [s] | _ \<Rightarrow> []) ns)"

text \<open>A list with every repetition after the first occurrence dropped.\<close>

fun keep_first :: "'a list \<Rightarrow> 'a list" where
  "keep_first [] = []"
| "keep_first (x # xs) = x # keep_first (filter (\<lambda>y. y \<noteq> x) xs)"

text \<open>A file of an upload batch is ingested when its name ends in \<open>.zip\<close>, whatever the
  case of the letters, and the shapefile pipeline makes a layer of its content.\<close>

definition ingested :: "'g upload \<Rightarrow> bool" where
  "ingested file =
     (endswith (lower (filename file)) ''.zip'' \<and> read_archive (content file) \<noteq> None)"

text \<open>Every file of the batch that the loop tries to store can be stored.\<close>

definition all_saved :: "'g upload list \<Rightarrow> 'g state \<Rightarrow> bool" where
  "all_saved files st =
     (set (map (\<lambda>f. path_join UPLOAD_FOLDER (filename f))
             (filter (\<lambda>f. endswith (lower (filename f)) ''.zip'') files))
        \<inter> unsavable st = {})"

text \<open>A box without NaN, and the bounds function that yields such boxes only.\<close>

definition num_box :: "'c box \<Rightarrow> 'c coord box" where
  "num_box b = \<lparr>minx = Num (minx b), miny = Num (miny b),
                 maxx = Num (maxx b), maxy = Num (maxy b)\<rparr>"

text \<open>
  A state to try the handlers on: the registry after the start of the process, which
  loads \<open>Taluka\<close> before \<open>P_Location\<close>, and an order file that still names a layer
  \<open>Old\<close> of an earlier run.
\<close>

definition demo_layer :: "nat \<Rightarrow> string \<Rightarrow> nat layer" where
  "demo_layer g zp = \<lparr>geojson = g, color = ''#1f77b4'', opacity = 7 / 10, zip_path = zp\<rparr>"

definition demo_zip :: "string \<Rightarrow> nat \<Rightarrow> nat archive" where
  "demo_zip name g =
     Zip [(''/tmp/tmpx'', [(name @ ''.dbf'', None), (name @ ''.shp'', Some g)])]"

definition demo_state :: "nat state" where
  "demo_state =
     \<lparr>layers = [(''Taluka'', demo_layer 1 ''uploads/Taluka.zip''),
                (''P_Location'', demo_layer 2 ''uploads/P_Location.zip'')],
      order_file = Content (Some (JArr [JStr ''Old'', JStr ''Taluka''])),
      order_write = WriteOk,
      disk = [(''uploads/Taluka.zip'', demo_zip ''Taluka'' 1),
              (''uploads/P_Location.zip'', demo_zip ''P_Location'' 2)],
      unsavable = {''uploads/sub/B.zip''},
      locked = {},
      randoms = id,
      drawn = 2\<rparr>"

text \<open>
  A batch of three archives, the second under a name whose directory does not exist,
  and the bounds of the sample layers: \<open>Taluka\<close> has no geometry, so its bounds are NaN,
  \<open>P_Location\<close> lies in a rectangle.
\<close>

definition demo_batch :: "nat upload list" where
  "demo_batch =
     [\<lparr>filename = ''A.zip'', content = demo_zip ''A'' 3\<rparr>,
      \<lparr>filename = ''sub/B.zip'', content = demo_zip ''B'' 4\<rparr>,
      \<lparr>filename = ''C.zip'', content = demo_zip ''C'' 5\<rparr>]"

definition demo_tb :: "nat \<Rightarrow> int coord box option" where
  "demo_tb g =
     (if g = 1 then Some \<lparr>minx = NaN, miny = NaN, maxx = NaN, maxy = NaN\<rparr>
      else if g = 2 then Some \<lparr>minx = Num 73, miny = Num 18, maxx = Num 74, maxy = Num 19\<rparr>
      else None)"

section \<open>Lists without repetitions\<close>

lemma remdups_snoc: "remdups (ys @ [x]) = remdups (filter (\<lambda>y. y \<noteq> x) ys) @ [x]"
  by (induction ys) auto

lemma keep_first_rev: "keep_first xs = rev (remdups (rev xs))"
proof (induction xs rule: keep_first.induct)
  case 1
  show ?case by simp
next
  case (2 x xs)
  then show ?case by (simp add: remdups_snoc rev_filter)
qed

lemma set_keep_first: "set (keep_first xs) = set xs"
  by (simp add: keep_first_rev)

lemma distinct_keep_first: "distinct (keep_first xs)"
  by (simp add: keep_first_rev)

lemma keep_first_distinct: "distinct xs \<Longrightarrow> keep_first xs = xs"
  by (simp add: keep_first_rev distinct_remdups_id)

lemma sorted_keep_first: "sorted xs \<Longrightarrow> sorted (keep_first xs)"
  by (induction xs rule: keep_first.induct) (auto simp: set_keep_first sorted_wrt_filter)

lemma strs_map_JStr: "strs (map JStr xs) = xs"
  by (induction xs) (simp_all add: strs_def)

lemma set_strs: "set (strs ns) = {s. JStr s \<in> set ns}"
proof (induction ns)
  case Nil
  show ?case by (simp add: strs_def)
next
  case (Cons n ns)
  then show ?case by (cases n) (auto simp: strs_def)
qed

section \<open>The three loops, in closed form\<close>

lemma append_missing_eq:
  "append_missing ns acc = acc @ keep_first (filter (\<lambda>n. n \<notin> set acc) ns)"
proof (induction ns arbitrary: acc)
  case Nil
  show ?case by simp
next
  case (Cons n ns)
  have "filter (\<lambda>y. y \<noteq> n) (filter (\<lambda>m. m \<notin> set acc) ns)
          = filter (\<lambda>m. m \<notin> set (acc @ [n])) ns"
    by (induction ns) auto
  then show ?case using Cons by simp
qed

lemma filter_fresh:
  "filter (\<lambda>y. y \<noteq> s) (filter (\<lambda>t. P t \<and> t \<notin> set acc) zs)
     = filter (\<lambda>t. P t \<and> t \<notin> set (acc @ [s])) zs"
  by (induction zs) auto

lemma keep_saved_eq:
  "keep_saved ns present acc =
     acc @ keep_first (filter (\<lambda>s. s \<in> set present \<and> s \<notin> set acc) (strs ns))"
proof (induction ns arbitrary: acc)
  case Nil
  show ?case by (simp add: strs_def)
next
  case (Cons n ns)
  show ?case
  proof (cases n)
    case (JStr s)
    have "filter (\<lambda>y. y \<noteq> s) (filter (\<lambda>t. t \<in> set present \<and> t \<notin> set acc) (strs ns))
            = filter (\<lambda>t. t \<in> set present \<and> t \<notin> set (acc @ [s])) (strs ns)"
      by (rule filter_fresh)
    then show ?thesis using Cons JStr by (simp add: strs_def)
  qed (use Cons in \<open>simp_all add: strs_def\<close>)
qed

lemma append_absent_eq:
  "append_absent names order =
     order @ map JStr (keep_first (filter (\<lambda>n. JStr n \<notin> set order) names))"
proof (induction names arbitrary: order)
  case Nil
  show ?case by simp
next
  case (Cons n ns)
  have "filter (\<lambda>y. y \<noteq> n) (filter (\<lambda>m. JStr m \<notin> set order) ns)
          = filter (\<lambda>m. JStr m \<notin> set (order @ [JStr n])) ns"
    by (induction ns) auto
  then show ?case using Cons by simp
qed

lemma append_absent_distinct:
  "distinct names \<Longrightarrow>
   append_absent names order = order @ map JStr (filter (\<lambda>n. JStr n \<notin> set order) names)"
  by (simp add: append_absent_eq keep_first_distinct)

section \<open>Reconcile\<close>

lemma reconcile_eq:
  "reconcile saved present =
     keep_first (filter (\<lambda>s. s \<in> set present) (strs saved))
     @ filter (\<lambda>n. n \<notin> set (strs saved)) (sorted_list_of_set (set present))"
proof -
  define kept where "kept = keep_first (filter (\<lambda>s. s \<in> set present) (strs saved))"
  have k: "keep_saved saved present [] = kept"
    by (simp add: keep_saved_eq kept_def)
  let ?L = "keep_first (filter (\<lambda>n. n \<notin> set kept) (sort present))"
  let ?R = "filter (\<lambda>n. n \<notin> set (strs saved)) (sorted_list_of_set (set present))"
  have "sorted ?L"
    by (intro sorted_keep_first sorted_wrt_filter) simp
  moreover have "distinct ?L"
    by (rule distinct_keep_first)
  moreover have "sorted ?R"
    by (intro sorted_wrt_filter) simp
  moreover have "distinct ?R"
    by simp
  moreover have "set ?L = set ?R"
    by (auto simp: set_keep_first kept_def)
  ultimately have "?L = ?R"
    by (rule sorted_distinct_set_unique)
  then show ?thesis
    by (simp add: reconcile_def k append_missing_eq kept_def)
qed

lemma set_reconcile: "set (reconcile saved present) = set present"
  by (auto simp: reconcile_eq set_keep_first)

lemma distinct_reconcile: "distinct (reconcile saved present)"
  by (auto simp: reconcile_eq set_keep_first distinct_keep_first)

section \<open>The listing handler always answers\<close>

lemma update_fresh: "k \<notin> fst ` set al \<Longrightarrow> AList.update k v al = al @ [(k, v)]"
  by (induction al) auto

lemma build_layers_eq:
  "set names \<subseteq> fst ` set reg \<Longrightarrow> distinct names \<Longrightarrow> set names \<inter> fst ` set acc = {} \<Longrightarrow>
   build_layers reg names acc = Inr (acc @ map (\<lambda>n. (n, the (map_of reg n))) names)"
proof (induction names arbitrary: acc)
  case Nil
  show ?case by simp
next
  case (Cons n ns)
  from Cons.prems obtain lyr where l: "map_of reg n = Some lyr"
    by (cases "map_of reg n") (auto simp: map_of_eq_None_iff)
  have f: "AList.update n lyr acc = acc @ [(n, lyr)]"
    using Cons.prems by (intro update_fresh) auto
  have "build_layers reg ns (acc @ [(n, lyr)])
          = Inr ((acc @ [(n, lyr)]) @ map (\<lambda>n. (n, the (map_of reg n))) ns)"
    using Cons.prems by (intro Cons.IH) auto
  then show ?case by (simp add: l f)
qed

lemma get_layers_eq:
  "get_layers admin tb st =
     Inr \<lparr>is_admin = admin,
          ordered_layers = sort_key fst (map (\<lambda>n. (n, the (map_of (layers st) n)))
                             (reconcile (load_saved_order (order_file st)) (map fst (layers st)))),
          ordered = reconcile (load_saved_order (order_file st)) (map fst (layers st)),
          final_bounds = aggregate_bounds tb (map (\<lambda>n. (n, the (map_of (layers st) n)))
                             (reconcile (load_saved_order (order_file st)) (map fst (layers st))))\<rparr>"
proof -
  let ?ord = "reconcile (load_saved_order (order_file st)) (map fst (layers st))"
  have "build_layers (layers st) ?ord []
          = Inr ([] @ map (\<lambda>n. (n, the (map_of (layers st) n))) ?ord)"
    by (intro build_layers_eq) (simp_all add: set_reconcile distinct_reconcile)
  then show ?thesis by (simp add: get_layers_def Let_def jsonify_def)
qed

section \<open>The upload and delete handlers, step by step\<close>

lemma remove_archive_fields:
  "layers (remove_archive zp st) = layers st"
  "order_file (remove_archive zp st) = order_file st"
  "order_write (remove_archive zp st) = order_write st"
  by (simp_all add: remove_archive_def)

lemma save_order_layers: "layers (snd (save_order order_list st)) = layers st"
  by (simp add: save_order_def split: write_outcome.splits)

lemma load_zip_fields:
  "order_file (snd (load_zip_into_layers zp st)) = order_file st"
  "order_write (snd (load_zip_into_layers zp st)) = order_write st"
  "unsavable (snd (load_zip_into_layers zp st)) = unsavable st"
  "distinct (map fst (layers st)) \<Longrightarrow> distinct (map fst (layers (snd (load_zip_into_layers zp st))))"
  by (simp_all add: load_zip_into_layers_def Let_def AList.distinct_update split: option.splits)

lemma load_zip_ok:
  "fst (load_zip_into_layers zp st) = (Option.bind (map_of (disk st) zp) read_archive \<noteq> None)"
  by (simp add: load_zip_into_layers_def Let_def split: option.splits)

lemma upload_loop_step:
  assumes "endswith (lower (filename u)) ''.zip''"
    and "path_join UPLOAD_FOLDER (filename u) \<notin> unsavable st"
  shows "upload_loop (u # us) up fl st =
     upload_loop us
       (if read_archive (content u) \<noteq> None then up @ [splitext_root (filename u)] else up)
       (if read_archive (content u) \<noteq> None then fl else fl @ [filename u])
       (snd (load_zip_into_layers (path_join UPLOAD_FOLDER (filename u))
               (st\<lparr>disk := AList.update (path_join UPLOAD_FOLDER (filename u)) (content u) (disk st)\<rparr>)))"
  using assms by (simp add: Let_def split_beta load_zip_ok AList.update_conv')

lemma upload_loop_fields:
  "order_file (snd (upload_loop files up fl st)) = order_file st
   \<and> order_write (snd (upload_loop files up fl st)) = order_write st
   \<and> (distinct (map fst (layers st)) \<longrightarrow>
        distinct (map fst (layers (snd (upload_loop files up fl st)))))"
proof (induction files arbitrary: up fl st)
  case Nil
  show ?case by simp
next
  case (Cons u us)
  let ?zp = "path_join UPLOAD_FOLDER (filename u)"
  consider (skip) "\<not> endswith (lower (filename u)) ''.zip''"
    | (raise) "endswith (lower (filename u)) ''.zip''" "?zp \<in> unsavable st"
    | (save) "endswith (lower (filename u)) ''.zip''" "?zp \<notin> unsavable st"
    by blast
  then show ?case
  proof cases
    case skip
    then show ?thesis using Cons by simp
  next
    case raise
    then show ?thesis by (simp add: Let_def)
  next
    case save
    define st1 where "st1 = st\<lparr>disk := AList.update ?zp (content u) (disk st)\<rparr>"
    define st2 where "st2 = snd (load_zip_into_layers ?zp st1)"
    have f: "order_file st2 = order_file st" "order_write st2 = order_write st"
      "distinct (map fst (layers st)) \<Longrightarrow> distinct (map fst (layers st2))"
      using load_zip_fields [where zp = ?zp and st = st1]
      by (simp_all add: st2_def st1_def)
    show ?thesis
      unfolding upload_loop_step [OF save] st1_def [symmetric] st2_def [symmetric]
      using Cons f by simp
  qed
qed

lemma upload_loop_lists:
  "all_saved files st \<Longrightarrow>
   fst (upload_loop files up fl st) =
     Inr (up @ map (\<lambda>f. splitext_root (filename f)) (filter ingested files),
          fl @ map filename (filter (\<lambda>f. \<not> ingested f) files))"
proof (induction files arbitrary: up fl st)
  case Nil
  show ?case by simp
next
  case (Cons u us)
  show ?case
  proof (cases "endswith (lower (filename u)) ''.zip''")
    case False
    moreover from Cons.prems False have "all_saved us st"
      by (simp add: all_saved_def)
    ultimately show ?thesis
      using Cons.IH [of st] by (simp add: ingested_def)
  next
    case True
    let ?zp = "path_join UPLOAD_FOLDER (filename u)"
    let ?st2 = "snd (load_zip_into_layers ?zp
                  (st\<lparr>disk := AList.update ?zp (content u) (disk st)\<rparr>))"
    from Cons.prems True have s: "?zp \<notin> unsavable st" and r: "all_saved us st"
      by (auto simp: all_saved_def)
    have "unsavable ?st2 = unsavable st"
      by (simp add: load_zip_fields)
    with r have "all_saved us ?st2"
      by (simp add: all_saved_def)
    then show ?thesis
      unfolding upload_loop_step [OF True s]
      using True by (simp add: Cons.IH ingested_def)
  qed
qed

lemma upload_shapefiles_eq:
  assumes "all_saved files st"
  shows "upload_shapefiles True (Some files) st =
     (Inr (UploadResult (map (\<lambda>f. splitext_root (filename f)) (filter ingested files))
                        (map filename (filter (\<lambda>f. \<not> ingested f) files))),
      snd (save_order (append_absent (map fst (layers (snd (upload_loop files [] [] st))))
                         (load_saved_order (order_file st)))
             (snd (upload_loop files [] [] st))))"
proof -
  obtain st1 where l: "upload_loop files [] [] st =
      (Inr (map (\<lambda>f. splitext_root (filename f)) (filter ingested files),
            map filename (filter (\<lambda>f. \<not> ingested f) files)), st1)"
    using upload_loop_lists [OF assms, of "[]" "[]"] by (cases "upload_loop files [] [] st") auto
  have "order_file st1 = order_file st"
    using upload_loop_fields [of files "[]" "[]" st] by (simp add: l)
  then show ?thesis
    by (simp add: upload_shapefiles_def l split_beta Let_def)
qed

lemma upload_batch_outcome_saved:
  assumes "all_saved files st"
  shows "fst (upload_shapefiles True (Some files) st) =
     Inr (UploadResult (map (\<lambda>f. splitext_root (filename f)) (filter ingested files))
                       (map filename (filter (\<lambda>f. \<not> ingested f) files)))"
    and "length (filter ingested files)
          = length files - length (filter (\<lambda>f. \<not> ingested f) files)"
proof -
  show "fst (upload_shapefiles True (Some files) st) =
     Inr (UploadResult (map (\<lambda>f. splitext_root (filename f)) (filter ingested files))
                       (map filename (filter (\<lambda>f. \<not> ingested f) files)))"
    by (simp add: upload_shapefiles_eq [OF assms])
  show "length (filter ingested files)
          = length files - length (filter (\<lambda>f. \<not> ingested f) files)"
    using sum_length_filter_compl [of ingested files] by simp
qed

text \<open>The keys of the registry stay free of repetitions, as those of a dictionary are:
  no handler introduces one.\<close>

lemma distinct_keys_kept:
  assumes "distinct (map fst (layers st))"
  shows "distinct (map fst (layers (snd (upload_shapefiles admin request_files st))))"
    and "distinct (map fst (layers (snd (delete_layer admin layer_name st))))"
    and "distinct (map fst (layers (snd (set_order admin body st))))"
proof -
  show "distinct (map fst (layers (snd (upload_shapefiles admin request_files st))))"
  proof (cases "admin \<and> request_files \<noteq> None")
    case True
    then obtain files where a: "admin" and f: "request_files = Some files"
      by auto
    have "distinct (map fst (layers (snd (upload_loop files [] [] st))))"
      using assms upload_loop_fields [of files "[]" "[]" st] by simp
    then show ?thesis
      using a f
      by (cases "upload_loop files [] [] st")
         (auto simp: upload_shapefiles_def Let_def split_beta save_order_layers split: sum.splits)
  next
    case False
    then show ?thesis
      using assms by (auto simp: upload_shapefiles_def)
  qed
  show "distinct (map fst (layers (snd (delete_layer admin layer_name st))))"
    using assms
    by (auto simp: delete_layer_def Let_def remove_archive_fields save_order_layers
        AList.distinct_delete split: option.splits)
  show "distinct (map fst (layers (snd (set_order admin body st))))"
    using assms
    by (auto simp: set_order_def Let_def split_beta save_order_layers split: sum.splits json.splits)
qed

section \<open>The bounds of the listing\<close>

text \<open>Where no NaN comes in, the bounds are the rectangle around all the boxes.\<close>

lemma collect_bounds_eq:
  "collect_bounds tb lyrs acc = acc @ List.map_filter (\<lambda>l. tb (geojson l)) lyrs"
  by (induction lyrs arbitrary: acc) (simp_all add: List.map_filter_simps split: option.splits)

lemma py_min_Num: "py_min (Num x) (map Num xs) = Num (Min (set (x # xs)))"
proof -
  have "fold (\<lambda>y best. if py_less y best then y else best) (map Num xs) (Num x)
          = Num (fold min xs x)"
  proof (induction xs arbitrary: x)
    case Nil
    show ?case by simp
  next
    case (Cons a xs)
    have "(if a < x then Num a else Num x) = Num (min a x)"
      by (auto simp: min_def)
    then show ?case
      using Cons [of "min a x"] by simp
  qed
  then show ?thesis
    unfolding py_min_def by (simp only: Min.set_eq_fold)
qed

lemma py_max_Num: "py_max (Num x) (map Num xs) = Num (Max (set (x # xs)))"
proof -
  have "fold (\<lambda>y best. if py_less best y then y else best) (map Num xs) (Num x)
          = Num (fold max xs x)"
  proof (induction xs arbitrary: x)
    case Nil
    show ?case by simp
  next
    case (Cons a xs)
    have "(if x < a then Num a else Num x) = Num (max a x)"
      by (auto simp: max_def)
    then show ?case
      using Cons [of "max a x"] by simp
  qed
  then show ?thesis
    unfolding py_max_def by (simp only: Max.set_eq_fold)
qed

lemma map_filter_map_option:
  "List.map_filter (\<lambda>l. map_option h (f l)) xs = map h (List.map_filter f xs)"
  by (induction xs) (simp_all add: List.map_filter_simps split: option.splits)

lemma aggregate_bounds_finite:
  assumes "set (List.map_filter (\<lambda>l. tb (geojson l)) (map snd ols)) = B"
  shows "aggregate_bounds (\<lambda>g. map_option num_box (tb g)) ols =
     (if B = {} then None
      else Some ((Num (Min (miny ` B)), Num (Min (minx ` B))),
                 (Num (Max (maxy ` B)), Num (Max (maxx ` B)))))"
proof (cases "List.map_filter (\<lambda>l. tb (geojson l)) (map snd ols)")
  case Nil
  then show ?thesis
    using assms by (auto simp: aggregate_bounds_def collect_bounds_eq map_filter_map_option)
next
  case (Cons b bs)
  then have B: "B = set (b # bs)"
    using assms by simp
  have ne: "ols \<noteq> []"
    using Cons by (auto simp: List.map_filter_simps)
  have i: "\<And>f. set (f b # map f bs) = f ` B"
    by (simp add: B)
  have m: "\<And>f. map (\<lambda>x. Num (f x)) bs = map Num (map f bs)"
    by simp
  have "aggregate_bounds (\<lambda>g. map_option num_box (tb g)) ols =
          Some ((py_min (Num (miny b)) (map Num (map miny bs)),
                 py_min (Num (minx b)) (map Num (map minx bs))),
                (py_max (Num (maxy b)) (map Num (map maxy bs)),
                 py_max (Num (maxx b)) (map Num (map maxx bs))))"
    using ne
    by (simp add: aggregate_bounds_def collect_bounds_eq map_filter_map_option Cons Let_def
        num_box_def comp_def)
  also have "\<dots> = Some ((Num (Min (miny ` B)), Num (Min (minx ` B))),
                 (Num (Max (maxy ` B)), Num (Max (maxx ` B))))"
    by (simp only: py_min_Num py_max_Num i)
  finally show ?thesis
    by (simp add: B)
qed

lemma set_map_filter_Some:
  "set (List.map_filter f xs) = {b. \<exists>x \<in> set xs. f x = Some b}"
  by (induction xs) (auto simp: List.map_filter_simps split: option.splits)

lemma registered_layers:
  "(\<lambda>n. the (map_of reg n)) ` fst ` set reg = {lyr. \<exists>n. map_of reg n = Some lyr}"
proof (intro set_eqI iffI)
  fix lyr
  assume "lyr \<in> (\<lambda>n. the (map_of reg n)) ` fst ` set reg"
  then obtain n where n: "n \<in> fst ` set reg" and l: "lyr = the (map_of reg n)"
    by blast
  from n obtain v where "map_of reg n = Some v"
    by (cases "map_of reg n") (auto simp: map_of_eq_None_iff)
  with l show "lyr \<in> {lyr. \<exists>n. map_of reg n = Some lyr}"
    by auto
next
  fix lyr
  assume "lyr \<in> {lyr. \<exists>n. map_of reg n = Some lyr}"
  then obtain n where n: "map_of reg n = Some lyr"
    by blast
  then have "n \<in> fst ` set reg"
    by (metis map_of_eq_None_iff option.distinct(1))
  with n show "lyr \<in> (\<lambda>n. the (map_of reg n)) ` fst ` set reg"
    by force
qed

lemma boxes_of_listing:
  "set (List.map_filter (\<lambda>l. tb (geojson l))
          (map snd (map (\<lambda>n. (n, the (map_of reg n))) (reconcile saved (map fst reg)))))
     = {b. \<exists>n lyr. map_of reg n = Some lyr \<and> tb (geojson lyr) = Some b}"
proof -
  have "set (map snd (map (\<lambda>n. (n, the (map_of reg n))) (reconcile saved (map fst reg))))
          = {lyr. \<exists>n. map_of reg n = Some lyr}"
    using registered_layers [of reg] by (simp add: set_reconcile comp_def image_image)
  then show ?thesis
    unfolding set_map_filter_Some by blast
qed

lemma listing_bounds_union_finite:
  "\<exists>r. get_layers admin (\<lambda>g. map_option num_box (tb g)) st = Inr r \<and>
       final_bounds r =
         (let B = {b. \<exists>n lyr. map_of (layers st) n = Some lyr \<and> tb (geojson lyr) = Some b}
          in if B = {} then None
             else Some ((Num (Min (miny ` B)), Num (Min (minx ` B))),
                        (Num (Max (maxy ` B)), Num (Max (maxx ` B)))))"
proof -
  let ?B = "{b. \<exists>n lyr. map_of (layers st) n = Some lyr \<and> tb (geojson lyr) = Some b}"
  let ?ord = "reconcile (load_saved_order (order_file st)) (map fst (layers st))"
  let ?ols = "map (\<lambda>n. (n, the (map_of (layers st) n))) ?ord"
  let ?tb = "\<lambda>g. map_option num_box (tb g)"
  define r :: "('a, 'b) list_response" where
    "r = \<lparr>is_admin = admin, ordered_layers = sort_key fst ?ols, ordered = ?ord,
           final_bounds = aggregate_bounds ?tb ?ols\<rparr>"
  have g: "get_layers admin ?tb st = Inr r"
    by (simp only: r_def get_layers_eq)
  have "final_bounds r = aggregate_bounds ?tb ?ols"
    by (simp add: r_def)
  also have "\<dots> = (if ?B = {} then None
              else Some ((Num (Min (miny ` ?B)), Num (Min (minx ` ?B))),
                         (Num (Max (maxy ` ?B)), Num (Max (maxx ` ?B)))))"
    by (rule aggregate_bounds_finite [OF boxes_of_listing])
  finally show ?thesis
    unfolding Let_def using g by blast
qed

section \<open>Sorted keys, and the order of the sample state\<close>


lemma demo_reconcile:
  "reconcile [JStr ''Old'', JStr ''Taluka''] [''Taluka'', ''P_Location''] = [''Taluka'', ''P_Location'']"
  "reconcile [JStr ''P_Location''] [''Taluka'', ''P_Location''] = [''P_Location'', ''Taluka'']"
  "reconcile [JStr ''Old'', JStr ''Taluka''] [''Taluka''] = [''Taluka'']"
  by (simp_all add: reconcile_def)

section \<open>The properties\<close>

text \<open>
  C3. For every state of the order file and of the registry, the listing handler answers,
  and the order it returns is: the strings of the loaded order that are registered names,
  in their original succession with every repetition after the first dropped, followed by
  the registered names that the loaded order does not contain, in lexicographic order.
\<close>

theorem listing_order_reconciled:
  "\<exists>r. get_layers admin tb st = Inr r \<and>
       ordered r =
         rev (remdups (rev (filter (\<lambda>s. s \<in> fst ` set (layers st))
                              (strs (load_saved_order (order_file st))))))
         @ filter (\<lambda>n. JStr n \<notin> set (load_saved_order (order_file st)))
             (sorted_list_of_set (fst ` set (layers st)))"
  by (simp add: get_layers_eq reconcile_eq keep_first_rev set_strs)

text \<open>
  C4. Reconciling is idempotent: for every order list and every list of present names,
  reconciling the result of a reconciliation, with the same present names, gives that
  result back.
\<close>

theorem reconcile_idempotent:
  "reconcile (map JStr (reconcile order present)) present = reconcile order present"
proof -
  let ?R = "reconcile order present"
  have "keep_saved (map JStr ?R) present [] = ?R"
    by (simp add: keep_saved_eq strs_map_JStr set_reconcile keep_first_distinct
        distinct_reconcile)
  moreover have "append_missing (sort present) ?R = ?R"
    by (simp add: append_missing_eq set_reconcile)
  ultimately show ?thesis
    by (simp add: reconcile_def [of "map JStr ?R"])
qed

text \<open>
  C5. Loading returns the stored list when the order file exists, can be read and holds a
  JSON list. When the file is missing, cannot be read, does not parse, or parses to
  something that is not a list, loading returns the default order; with no file the
  loaded order is exactly \<open>["P_Location", "Taluka"]\<close>.
\<close>

theorem load_saved_order_cases:
  "load_saved_order (Content (Some (JArr xs))) = xs
   \<and> load_saved_order Absent = [JStr ''P_Location'', JStr ''Taluka'']
   \<and> load_saved_order Unreadable = [JStr ''P_Location'', JStr ''Taluka'']
   \<and> load_saved_order (Content None) = [JStr ''P_Location'', JStr ''Taluka'']
   \<and> (\<not> is_list d \<longrightarrow>
        load_saved_order (Content (Some d)) = [JStr ''P_Location'', JStr ''Taluka''])"
  by (cases d) (simp_all add: load_saved_order_def try_load_def DEFAULT_LAYER_ORDER_def)

theorem load_saved_order_cases_witness:
  "\<not> is_list (JObj [(''order'', JArr [JStr ''A''])])
   \<and> load_saved_order (Content (Some (JObj [(''order'', JArr [JStr ''A''])])))
       = [JStr ''P_Location'', JStr ''Taluka'']
   \<and> load_saved_order (Content (Some (JArr [JStr ''A'', JNum 1]))) = [JStr ''A'', JNum 1]"
  using load_saved_order_cases [of "[JStr ''A'', JNum 1]" "JObj [(''order'', JArr [JStr ''A''])]"]
  by simp

text \<open>
  C7. An authorised delete request for a name that is not a key of the registry answers
  \<open>NotFound\<close>, and a delete request for such a name, authorised or not, leaves the whole
  state as it was: the registry, the order file and the stored archives.
\<close>

theorem delete_unknown_not_found:
  "layer_name \<notin> fst ` set (layers st) \<Longrightarrow>
   delete_layer True layer_name st = (NotFound, st)
   \<and> snd (delete_layer admin layer_name st) = st"
  by (simp add: delete_layer_def map_of_eq_None_iff [symmetric])

theorem delete_unknown_not_found_witness:
  "''Ghost'' \<notin> fst ` set (layers demo_state)
   \<and> delete_layer True ''Ghost'' demo_state = (NotFound, demo_state)"
proof -
  have h: "''Ghost'' \<notin> fst ` set (layers demo_state)"
    by (simp add: demo_state_def)
  show ?thesis using h delete_unknown_not_found [OF h, of True] by simp
qed

text \<open>
  C6 as stated fails where the order file cannot be opened for writing: \<open>save_order\<close>
  catches the error and returns \<open>False\<close>, the handler does not look at that result,
  answers \<open>Deleted\<close>, and the next load still returns the name.
\<close>

theorem delete_unwritable_keeps_name:
  "''Taluka'' \<in> fst ` set (layers (demo_state\<lparr>order_write := OpenFails\<rparr>))
   \<and> fst (delete_layer True ''Taluka'' (demo_state\<lparr>order_write := OpenFails\<rparr>)) = Deleted
   \<and> JStr ''Taluka'' \<in> set (load_saved_order (order_file
         (snd (delete_layer True ''Taluka'' (demo_state\<lparr>order_write := OpenFails\<rparr>)))))"
  by (simp add: demo_state_def demo_layer_def delete_layer_def Let_def remove_archive_def
      save_order_def load_saved_order_def try_load_def)

text \<open>
  C6, amended. For every registered layer name, an authorised delete request answers
  \<open>Deleted\<close> and removes the layer's entry from the registry, whatever becomes of the
  order file. The name is absent from the order that the next load returns when the
  write succeeds and the order file is not one that cannot be opened for reading, and
  also whenever the order loaded by the handler did not hold the name.
\<close>

theorem delete_removes_layer_and_name:
  assumes "layer_name \<in> fst ` set (layers st)"
  shows "fst (delete_layer True layer_name st) = Deleted
     \<and> layer_name \<notin> fst ` set (layers (snd (delete_layer True layer_name st)))
     \<and> (order_write st = WriteOk \<and> order_file st \<noteq> Unreadable \<longrightarrow>
          JStr layer_name
            \<notin> set (load_saved_order (order_file (snd (delete_layer True layer_name st)))))
     \<and> (JStr layer_name \<notin> set (load_saved_order (order_file st)) \<longrightarrow>
          JStr layer_name
            \<notin> set (load_saved_order (order_file (snd (delete_layer True layer_name st)))))"
proof -
  from assms obtain lyr where l: "map_of (layers st) layer_name = Some lyr"
    by (cases "map_of (layers st) layer_name") (auto simp: map_of_eq_None_iff)
  have r: "fst (delete_layer True layer_name st) = Deleted"
    by (simp add: delete_layer_def l Let_def)
  have g: "layer_name \<notin> fst ` set (layers (snd (delete_layer True layer_name st)))"
    by (simp add: delete_layer_def l Let_def remove_archive_fields save_order_layers
        AList.delete_notin_dom)
  have w: "JStr layer_name
            \<notin> set (load_saved_order (order_file (snd (delete_layer True layer_name st))))"
    if "order_write st = WriteOk" and "order_file st \<noteq> Unreadable"
    using that
    by (cases "order_file st")
       (simp_all add: delete_layer_def l Let_def remove_archive_fields save_order_def
          written_def load_saved_order_def try_load_def)
  have n: "JStr layer_name
            \<notin> set (load_saved_order (order_file (snd (delete_layer True layer_name st))))"
    if "JStr layer_name \<notin> set (load_saved_order (order_file st))"
    using that by (simp add: delete_layer_def l Let_def remove_archive_fields)
  show ?thesis
    using r g w n by blast
qed

theorem delete_removes_layer_and_name_witness:
  "''Taluka'' \<in> fst ` set (layers demo_state)
   \<and> order_write demo_state = WriteOk \<and> order_file demo_state \<noteq> Unreadable
   \<and> fst (delete_layer True ''Taluka'' demo_state) = Deleted
   \<and> ''Taluka'' \<notin> fst ` set (layers (snd (delete_layer True ''Taluka'' demo_state)))
   \<and> JStr ''Taluka''
       \<notin> set (load_saved_order (order_file (snd (delete_layer True ''Taluka'' demo_state))))"
proof -
  have h1: "''Taluka'' \<in> fst ` set (layers demo_state)"
    and h2: "order_write demo_state = WriteOk" and h3: "order_file demo_state \<noteq> Unreadable"
    by (simp_all add: demo_state_def)
  show ?thesis
    using h1 h2 h3 delete_removes_layer_and_name [OF h1] by simp
qed

text \<open>
  C1 as stated fails for a request that names a registered layer twice: the filter keeps
  both occurrences, so the saved and returned order holds the name twice.
\<close>

theorem set_order_repeats_name:
  "map fst (layers demo_state) = [''Taluka'', ''P_Location'']
   \<and> fst (set_order True (JObj [(''order'', JArr [JStr ''Taluka'', JStr ''Taluka''])]) demo_state)
       = Inr (OrderSaved [JStr ''Taluka'', JStr ''Taluka'', JStr ''P_Location''])"
  by (simp add: demo_state_def set_order_def cleaned_order_def py_in_def save_order_def Let_def)

text \<open>
  C1, amended. For every requested list and every registry, an authorised reorder request
  whose order is saved returns, and writes to the order file, the requested list filtered
  to the strings that are registered names, followed by the registered names missing from
  that filtered list in the registry's iteration order. The result holds registered names
  only and holds every registered name; it holds each exactly once whenever the filtered
  request has no repetition.
\<close>

theorem set_order_saved:
  assumes "distinct (map fst (layers st))" and "order_write st = WriteOk"
  shows "let present = map fst (layers st);
             kept = filter (\<lambda>n. is_str n \<and> py_in n present) requested;
             cleaned = kept @ map JStr (filter (\<lambda>n. JStr n \<notin> set kept) present)
         in fst (set_order True (JObj [(''order'', JArr requested)]) st) = Inr (OrderSaved cleaned)
            \<and> order_file (snd (set_order True (JObj [(''order'', JArr requested)]) st))
                = written (Some (JArr cleaned)) (order_file st)
            \<and> set cleaned = JStr ` set present
            \<and> (distinct kept \<longrightarrow> distinct cleaned)"
proof -
  define present where "present = map fst (layers st)"
  define kept where "kept = filter (\<lambda>n. is_str n \<and> py_in n present) requested"
  define cleaned where "cleaned = kept @ map JStr (filter (\<lambda>n. JStr n \<notin> set kept) present)"
  have c: "cleaned_order requested present = cleaned"
    using assms(1)
    by (simp add: cleaned_order_def append_absent_distinct present_def kept_def cleaned_def)
  have r: "set_order True (JObj [(''order'', JArr requested)]) st
             = (Inr (OrderSaved cleaned),
                st\<lparr>order_file := written (Some (JArr cleaned)) (order_file st)\<rparr>)"
    using assms(2) c by (simp add: set_order_def save_order_def Let_def present_def)
  have k: "set kept \<subseteq> JStr ` set present"
    by (auto simp: kept_def py_in_def)
  then have s: "set cleaned = JStr ` set present"
    by (auto simp: cleaned_def)
  have d: "distinct cleaned" if "distinct kept"
    using that assms(1)
    by (auto simp: cleaned_def distinct_map present_def[symmetric] inj_on_def)
  show ?thesis
    using r s d unfolding Let_def present_def[symmetric] kept_def[symmetric] cleaned_def[symmetric]
    by simp
qed

theorem set_order_saved_witness:
  "distinct (map fst (layers demo_state)) \<and> order_write demo_state = WriteOk
   \<and> fst (set_order True (JObj [(''order'', JArr [JStr ''Ghost'', JNum 7, JStr ''P_Location''])]) demo_state)
       = Inr (OrderSaved [JStr ''P_Location'', JStr ''Taluka''])"
proof -
  have h1: "distinct (map fst (layers demo_state))" and h2: "order_write demo_state = WriteOk"
    by (simp_all add: demo_state_def)
  have l: "map fst (layers demo_state) = [''Taluka'', ''P_Location'']"
    by (simp add: demo_state_def)
  show ?thesis
    using h1 h2 set_order_saved [OF h1 h2, of "[JStr ''Ghost'', JNum 7, JStr ''P_Location'']"]
    by (simp add: Let_def l py_in_def)
qed




text \<open>
  C8 holds for the batches whose archives can all be stored (\<open>upload_batch_outcome_saved\<close>
  above) and fails on the code otherwise. In the batch \<open>A.zip\<close>, \<open>sub/B.zip\<close>, \<open>C.zip\<close>
  of three archives with a shapefile each, \<open>file.save\<close> raises for the second: the request
  ends with that exception and no lists, \<open>A\<close> is registered, \<open>C\<close> is never looked at and
  the order file is not updated, although \<open>A.zip\<close> and \<open>C.zip\<close> without \<open>sub/B.zip\<close> are
  both uploaded.
\<close>

theorem upload_aborts_on_unsaved_file:
  "fst (upload_shapefiles True (Some demo_batch) demo_state) = Inl OSError
   \<and> map fst (layers (snd (upload_shapefiles True (Some demo_batch) demo_state)))
       = [''Taluka'', ''P_Location'', ''A'']
   \<and> order_file (snd (upload_shapefiles True (Some demo_batch) demo_state))
       = Content (Some (JArr [JStr ''Old'', JStr ''Taluka'']))
   \<and> fst (upload_shapefiles True
         (Some [\<lparr>filename = ''A.zip'', content = demo_zip ''A'' 3\<rparr>,
                \<lparr>filename = ''C.zip'', content = demo_zip ''C'' 5\<rparr>]) demo_state)
       = Inr (UploadResult [''A'', ''C''] [])"
  by (simp add: demo_batch_def demo_state_def demo_zip_def upload_shapefiles_def lower_def
      lower_char_def endswith_def load_saved_order_def try_load_def save_order_def
      load_zip_into_layers_def read_archive_def path_join_def UPLOAD_FOLDER_def
      splitext_root_def basename_def Let_def)

text \<open>
  C9 holds where geopandas yields no NaN (\<open>listing_bounds_union_finite\<close> above) and fails
  on the code otherwise. For a layer without geometry geopandas raises nothing and
  yields NaN bounds, so the layer is not passed over: with \<open>Taluka\<close> empty and listed
  first the bounds are NaN throughout; with \<open>Taluka\<close> listed after \<open>P_Location\<close> they are
  those of \<open>P_Location\<close>; with \<open>Taluka\<close> alone they are NaN, not absent.
\<close>

theorem listing_bounds_nan:
  "final_bounds (projr (get_layers False demo_tb demo_state)) = Some ((NaN, NaN), (NaN, NaN))
   \<and> final_bounds (projr (get_layers False demo_tb
         (demo_state\<lparr>order_file := Content (Some (JArr [JStr ''P_Location'']))\<rparr>)))
       = Some ((Num 18, Num 73), (Num 19, Num 74))
   \<and> final_bounds (projr (get_layers False demo_tb
         (demo_state\<lparr>layers := [(''Taluka'', demo_layer 1 ''uploads/Taluka.zip'')]\<rparr>)))
       = Some ((NaN, NaN), (NaN, NaN))"
  by (simp add: get_layers_eq demo_state_def demo_layer_def demo_tb_def load_saved_order_def
      try_load_def demo_reconcile aggregate_bounds_def py_min_def py_max_def)



end
